theory Spec2Isabelle
  imports Complex_Main "HOL-Library.AList"
begin

section \<open>Errors and Python dictionaries\<close>

text \<open>
  The exceptions that the modelled code paths of \<^verbatim>\<open>solver.py\<close> and \<^verbatim>\<open>data.py\<close> can raise.
  A function that may raise returns \<open>error + 'a\<close>, with \<open>Inl\<close> for the exception.
\<close>

datatype error =
    KeyError
  | AttributeError
  | ValueError
  | TypeError
  | IndexError
  | ZeroDivisionError
  | FileNotFoundError
  | FileExistsError
  | OtherError string

text \<open>
  A Python \<^verbatim>\<open>dict\<close> keeps its keys in insertion order: it is an association list with
  distinct keys. The assignment \<^verbatim>\<open>d[k] = v\<close> is \<^const>\<open>AList.update\<close>: an existing key keeps
  its position and takes the new value, a new key goes to the end.
  The lookup \<^verbatim>\<open>d[k]\<close> raises \<^verbatim>\<open>KeyError\<close> on a missing key.
\<close>

type_synonym ('k, 'v) dict = "('k \<times> 'v) list"

definition getitem :: "('k, 'v) dict \<Rightarrow> 'k \<Rightarrow> error + 'v" where
  "getitem d k = (case map_of d k of None \<Rightarrow> Inl KeyError | Some v \<Rightarrow> Inr v)"

text \<open>\<^verbatim>\<open>dict(pairs)\<close>: the pairs are inserted from left to right.\<close>

definition dict_of :: "('k \<times> 'v) list \<Rightarrow> ('k, 'v) dict" where
  "dict_of ps = foldl (\<lambda>d (k, v). AList.update k v d) [] ps"


text \<open>
  Sequencing of computations that may raise: the first exception is the result.
\<close>

definition bind_error :: "error + 'a \<Rightarrow> ('a \<Rightarrow> error + 'b) \<Rightarrow> error + 'b" where
  "bind_error r f = (case r of Inl e \<Rightarrow> Inl e | Inr x \<Rightarrow> f x)"

text \<open>A list comprehension whose element expression may raise.\<close>

fun map_error :: "('a \<Rightarrow> error + 'b) \<Rightarrow> 'a list \<Rightarrow> error + 'b list" where
  "map_error f [] = Inr []"
| "map_error f (x # xs) =
     (case f x of
        Inl e \<Rightarrow> Inl e
      | Inr y \<Rightarrow> (case map_error f xs of Inl e \<Rightarrow> Inl e | Inr ys \<Rightarrow> Inr (y # ys)))"

section \<open>Configuration models (models.py)\<close>

text \<open>
  The type \<open>'f\<close> stands for Python's \<^verbatim>\<open>float\<close>. The code never computes with the swept
  values themselves, so nothing is assumed about their arithmetic.
  \<^verbatim>\<open>Variable.value\<close> is \<^verbatim>\<open>list[float] | Array\<close>; \<^verbatim>\<open>Array\<close> has the fields start, end, step.
\<close>

datatype 'f var_value = ValueList "'f list" | Array 'f 'f 'f

record 'f Variable =
  var_name :: string
  var_value :: "'f var_value"
  var_format :: "string option"

record 'f Constant =
  const_name :: string
  const_value :: 'f

section \<open>ParamsManager (solver.py)\<close>

record 'f ParamsManager =
  constants :: "(string, 'f) dict"
  variables :: "(string, 'f list) dict"
  variable_formats :: "(string, string option) dict"

text \<open>
  \<^verbatim>\<open>ParamsManager.__init__\<close>. The first loop fills \<^verbatim>\<open>_constants\<close>, the second
  \<^verbatim>\<open>_variables\<close>, the dict comprehension \<^verbatim>\<open>_variable_formats\<close>. \<^verbatim>\<open>np.arange\<close> is library code: it
  is the parameter \<open>arange\<close>, which may raise (a zero step, a length beyond the maximum).
\<close>

fun init_constants :: "'f Constant list \<Rightarrow> (string, 'f) dict \<Rightarrow> (string, 'f) dict" where
  "init_constants [] d = d"
| "init_constants (const # consts) d =
     init_constants consts (AList.update (const_name const) (const_value const) d)"

fun init_variables ::
  "('f \<Rightarrow> 'f \<Rightarrow> 'f \<Rightarrow> error + 'f list) \<Rightarrow> 'f Variable list \<Rightarrow> (string, 'f list) dict
    \<Rightarrow> error + (string, 'f list) dict" where
  "init_variables arange [] d = Inr d"
| "init_variables arange (var # vars) d =
     (case var_value var of
        ValueList xs \<Rightarrow> init_variables arange vars (AList.update (var_name var) xs d)
      | Array start end' step \<Rightarrow>
          (case arange start end' step of
             Inl e \<Rightarrow> Inl e
           | Inr xs \<Rightarrow> init_variables arange vars (AList.update (var_name var) xs d)))"

definition ParamsManager_init ::
  "('f \<Rightarrow> 'f \<Rightarrow> 'f \<Rightarrow> error + 'f list) \<Rightarrow> 'f Constant list \<Rightarrow> 'f Variable list
    \<Rightarrow> error + 'f ParamsManager" where
  "ParamsManager_init arange consts vars =
     (case init_variables arange vars [] of
        Inl e \<Rightarrow> Inl e
      | Inr vd \<Rightarrow>
          Inr \<lparr> constants = init_constants consts [],
                variables = vd,
                variable_formats = dict_of (map (\<lambda>var. (var_name var, var_format var)) vars) \<rparr>)"

text \<open>
  \<^verbatim>\<open>itertools.product(*pools)\<close>, as the Python documentation defines it:
  \<^verbatim>\<open>result = [[]]; for pool in pools: result = [x+[y] for x in result for y in pool]\<close>.
\<close>

definition itertools_product :: "'a list list \<Rightarrow> 'a list list" where
  "itertools_product pools =
     foldl (\<lambda>result pool. concat (map (\<lambda>x. map (\<lambda>y. x @ [y]) pool) result)) [[]] pools"

text \<open>
  \<^verbatim>\<open>ParamsManager.generate_variables\<close>: the generator's output as a list of points, each
  point a dictionary.
\<close>

definition generate_variables :: "'f ParamsManager \<Rightarrow> error + (string, 'f) dict list" where
  "generate_variables pm =
     (if variables pm = [] then Inr [constants pm]
      else
        (let var_names = map fst (variables pm) in
         case map_error (getitem (variables pm)) var_names of
           Inl e \<Rightarrow> Inl e
         | Inr var_values \<Rightarrow>
             Inr (map (\<lambda>combination. dict_of (zip var_names combination))
                    (itertools_product var_values))))"

text \<open>\<^verbatim>\<open>ParamsManager.shape_variables\<close>.\<close>

definition shape_variables :: "'f ParamsManager \<Rightarrow> nat list" where
  "shape_variables pm = map (\<lambda>values. length values) (map snd (variables pm))"

section \<open>Identifiers of sweep points (solver.py)\<close>

text \<open>
  \<^verbatim>\<open>format_str.format(v)\<close> is Python's \<^verbatim>\<open>str.format\<close> with one positional argument. A string
  with no brace has no replacement field and is returned as it is; how a string with braces
  is expanded (field syntax, float formatting) is library code, the parameter
  \<open>format_fields\<close>, which may raise.
\<close>

definition str_format ::
  "(string \<Rightarrow> 'f \<Rightarrow> error + string) \<Rightarrow> string \<Rightarrow> 'f \<Rightarrow> error + string" where
  "str_format format_fields format_str v =
     (if CHR ''{'' \<notin> set format_str \<and> CHR ''}'' \<notin> set format_str then Inr format_str
      else format_fields format_str v)"

text \<open>\<^verbatim>\<open>sep.join(parts)\<close>.\<close>

fun str_join :: "string \<Rightarrow> string list \<Rightarrow> string" where
  "str_join sep [] = []"
| "str_join sep [x] = x"
| "str_join sep (x # y # ys) = x @ sep @ str_join sep (y # ys)"

text \<open>
  The body of the loop of \<^verbatim>\<open>_get_dir_name\<close>: the lookup of the format raises \<^verbatim>\<open>KeyError\<close> on
  an unknown name, and the method call \<^verbatim>\<open>.format\<close> on \<^verbatim>\<open>None\<close> raises \<^verbatim>\<open>AttributeError\<close>.
\<close>

definition dir_name_segment ::
  "(string \<Rightarrow> 'f \<Rightarrow> error + string) \<Rightarrow> 'f ParamsManager \<Rightarrow> string \<times> 'f \<Rightarrow> error + string" where
  "dir_name_segment format_fields pm item =
     (case item of (k, v) \<Rightarrow>
        (case getitem (variable_formats pm) k of
           Inl e \<Rightarrow> Inl e
         | Inr None \<Rightarrow> Inl AttributeError
         | Inr (Some format_str) \<Rightarrow>
             (case str_format format_fields format_str v of
                Inl e \<Rightarrow> Inl e
              | Inr formatted \<Rightarrow> Inr (k @ ''('' @ formatted @ '')''))))"

definition get_dir_name ::
  "(string \<Rightarrow> 'f \<Rightarrow> error + string) \<Rightarrow> 'f ParamsManager \<Rightarrow> (string, 'f) dict \<Rightarrow> error + string" where
  "get_dir_name format_fields pm variables' =
     (case map_error (dir_name_segment format_fields pm) variables' of
        Inl e \<Rightarrow> Inl e
      | Inr results \<Rightarrow> Inr (str_join ''_'' results))"

section \<open>NumPy arrays\<close>

text \<open>
  An array is its shape and its elements in row-major (C) order, the layout of every array
  the solver builds. \<^verbatim>\<open>np.array(xs)\<close> of a flat list is one-dimensional; \<^verbatim>\<open>reshape\<close> keeps
  the elements and raises \<^verbatim>\<open>ValueError\<close> when the sizes differ; the element at a multi-index
  is found at the sum of the indices times their strides, the stride of an axis being
  the product of the later dimensions.
\<close>

record 'a ndarray =
  shape :: "nat list"
  data :: "'a list"

definition np_array :: "'a list \<Rightarrow> 'a ndarray" where
  "np_array xs = \<lparr> shape = [length xs], data = xs \<rparr>"




section \<open>OutputData (data.py)\<close>

definition FIELD_NAMES :: "string list" where
  "FIELD_NAMES =
     [''Y (ang)'', ''Ec (eV)'', ''Ev (eV)'', ''E (V/cm)'', ''Ef (eV)'', ''n (cm-3)'',
      ''p (cm-3)'', ''Nd - Na (cm-3)'', ''el eval 1 (eV)'']"

text \<open>
  \<^verbatim>\<open>csv.DictReader.__next__\<close> with explicit field names: rows that are the empty list are
  skipped; a row becomes \<^verbatim>\<open>dict(zip(fieldnames, row))\<close>, and the field names beyond a short
  row get the value \<^verbatim>\<open>restval\<close>, which is \<^verbatim>\<open>None\<close>. (The cells beyond the field names go under
  the key \<^verbatim>\<open>None\<close>, which the parser never reads; that item is left out.)
\<close>

definition dict_row :: "string list \<Rightarrow> string list \<Rightarrow> (string, string option) dict" where
  "dict_row fieldnames row =
     foldl (\<lambda>d key. AList.update key None d)
       (dict_of (zip fieldnames (map Some row)))
       (drop (length row) fieldnames)"

definition DictReader :: "string list \<Rightarrow> string list list \<Rightarrow> (string, string option) dict list" where
  "DictReader fieldnames rows = map (dict_row fieldnames) (filter (\<lambda>row. row \<noteq> []) rows)"

text \<open>
  \<^verbatim>\<open>float(x)\<close>: \<^verbatim>\<open>TypeError\<close> on \<^verbatim>\<open>None\<close>, \<^verbatim>\<open>ValueError\<close> on a string that is not a number.
  Which strings are numbers, and which float they denote, is the parameter \<open>py_float\<close>.
\<close>

definition float_of :: "(string \<Rightarrow> 'f option) \<Rightarrow> string option \<Rightarrow> error + 'f" where
  "float_of py_float x =
     (case x of
        None \<Rightarrow> Inl TypeError
      | Some s \<Rightarrow> (case py_float s of None \<Rightarrow> Inl ValueError | Some y \<Rightarrow> Inr y))"

record 'f OutputData =
  z :: "'f list"
  energy_conduction :: "'f list"
  energy_valence :: "'f list"
  electric_field :: "'f list"
  energy_fermi :: "'f list"
  density_electron :: "'f list"
  density_hole :: "'f list"
  energy_ground_state :: "'f option"
  position_ground_state :: "'f option"

text \<open>\<^verbatim>\<open>float(row[key])\<close>.\<close>

definition float_cell ::
  "(string \<Rightarrow> 'f option) \<Rightarrow> (string, string option) dict \<Rightarrow> string \<Rightarrow> error + 'f" where
  "float_cell py_float row key = bind_error (getitem row key) (float_of py_float)"

text \<open>
  The last statement of the loop body: the test of the ninth cell and of the energy, and
  the two assignments. \<open>div10\<close> is the float division by \<^verbatim>\<open>1e1\<close>.
\<close>

definition set_ground_state ::
  "(string \<Rightarrow> 'f option) \<Rightarrow> ('f \<Rightarrow> 'f) \<Rightarrow> (string, string option) dict \<Rightarrow> 'f OutputData
    \<Rightarrow> error + 'f OutputData" where
  "set_ground_state py_float div10 row od =
     bind_error (getitem row ''el eval 1 (eV)'') (\<lambda>cell.
       if cell \<noteq> None \<and> energy_ground_state od = None then
         bind_error (float_of py_float cell) (\<lambda>e.
         bind_error (float_cell py_float row ''Y (ang)'') (\<lambda>y.
           Inr (od\<lparr> energy_ground_state := Some e, position_ground_state := Some (div10 y) \<rparr>)))
       else Inr od)"

text \<open>The loop body for a row of index other than 0.\<close>

definition parse_row ::
  "(string \<Rightarrow> 'f option) \<Rightarrow> ('f \<Rightarrow> 'f) \<Rightarrow> (string, string option) dict \<Rightarrow> 'f OutputData
    \<Rightarrow> error + 'f OutputData" where
  "parse_row py_float div10 row od =
     bind_error (float_cell py_float row ''Y (ang)'') (\<lambda>y.
     bind_error (float_cell py_float row ''Ec (eV)'') (\<lambda>ec.
     bind_error (float_cell py_float row ''Ev (eV)'') (\<lambda>ev.
     bind_error (float_cell py_float row ''E (V/cm)'') (\<lambda>ef.
     bind_error (float_cell py_float row ''Ef (eV)'') (\<lambda>fermi.
     bind_error (float_cell py_float row ''n (cm-3)'') (\<lambda>n.
     bind_error (float_cell py_float row ''p (cm-3)'') (\<lambda>p.
       set_ground_state py_float div10 row
         (od\<lparr> z := z od @ [div10 y],
              energy_conduction := energy_conduction od @ [ec],
              energy_valence := energy_valence od @ [ev],
              electric_field := electric_field od @ [ef],
              energy_fermi := energy_fermi od @ [fermi],
              density_electron := density_electron od @ [n],
              density_hole := density_hole od @ [p] \<rparr>))))))))"

text \<open>\<^verbatim>\<open>for i, row in enumerate(reader)\<close>, from the index \<open>i\<close> on.\<close>

fun parse_rows ::
  "(string \<Rightarrow> 'f option) \<Rightarrow> ('f \<Rightarrow> 'f) \<Rightarrow> nat \<Rightarrow> (string, string option) dict list
    \<Rightarrow> 'f OutputData \<Rightarrow> error + 'f OutputData" where
  "parse_rows py_float div10 i [] od = Inr od"
| "parse_rows py_float div10 i (row # rows) od =
     (if i = 0 then parse_rows py_float div10 (Suc i) rows od
      else
        (case parse_row py_float div10 row od of
           Inl e \<Rightarrow> Inl e
         | Inr od' \<Rightarrow> parse_rows py_float div10 (Suc i) rows od'))"

text \<open>
  \<^verbatim>\<open>OutputData.__init__\<close>. The argument is the text of the file at the path, or \<open>None\<close>
  when there is no such file (\<^verbatim>\<open>open\<close> raises). \<open>csv_reader\<close> is \<^verbatim>\<open>csv.reader\<close> with the
  tab delimiter: the rows of cells of a text. The arrays built at the end hold the lists
  unchanged.
\<close>

definition OutputData_init ::
  "(string \<Rightarrow> string list list) \<Rightarrow> (string \<Rightarrow> 'f option) \<Rightarrow> ('f \<Rightarrow> 'f) \<Rightarrow> string option
    \<Rightarrow> error + 'f OutputData" where
  "OutputData_init csv_reader py_float div10 output_file =
     (case output_file of
        None \<Rightarrow> Inl FileNotFoundError
      | Some text \<Rightarrow>
          parse_rows py_float div10 0 (DictReader FIELD_NAMES (csv_reader text))
            \<lparr> z = [], energy_conduction = [], energy_valence = [], electric_field = [],
              energy_fermi = [], density_electron = [], density_hole = [],
              energy_ground_state = None, position_ground_state = None \<rparr>)"

section \<open>The sweep (solver.py)\<close>

text \<open>
  The part of the world that \<^verbatim>\<open>lDPoissonExSolver\<close> reads and writes:
  \<^item> \<open>app_dir\<close>: the text files in the simulator's directory \<^verbatim>\<open>path_1d_poisson.parent\<close>,
    by file name;
  \<^item> \<open>output_dirs\<close>: the subdirectories of \<^verbatim>\<open>dir_output\<close>, by name, each with its files;
  \<^item> \<open>npy_files\<close>: the arrays that \<^verbatim>\<open>np.save\<close> has written under \<^verbatim>\<open>dir_output\<close>, by file name;
  \<^item> \<open>dir_output_exists\<close>: whether the directory \<^verbatim>\<open>dir_output\<close> exists.
  The three name spaces are kept apart: an identifier is taken as a plain file name. The
  log is not modelled.

  A saved array is of dtype \<^verbatim>\<open>float64\<close> or of dtype \<^verbatim>\<open>object\<close>, with \<^verbatim>\<open>None\<close> entries.
  \<^verbatim>\<open>np.array\<close> of a list of floats and \<^verbatim>\<open>None\<close>s is of dtype \<^verbatim>\<open>float64\<close> when no entry is
  \<^verbatim>\<open>None\<close> (the empty list included), of dtype \<^verbatim>\<open>object\<close> otherwise.
\<close>

datatype 'f npy = FloatArray "'f ndarray" | ObjectArray "'f option ndarray"





record 'f world =
  app_dir :: "string \<rightharpoonup> string"
  output_dirs :: "string \<rightharpoonup> (string \<rightharpoonup> string)"
  npy_files :: "string \<rightharpoonup> 'f npy"
  dir_output_exists :: bool

text \<open>
  What the solver calls and this repository does not define:
  \<^item> \<open>np_arange\<close>, \<open>format_fields\<close>, \<open>csv_reader\<close>, \<open>py_float\<close>, \<open>div10\<close>: as above;
  \<^item> \<open>template_render\<close>: \<^verbatim>\<open>self._template.render(mapping)\<close> of Jinja2;
  \<^item> \<open>simulator\<close>: the external program, run by \<^verbatim>\<open>subprocess.run\<close> with the identifier as its
    argument in its own directory: what it makes of the files there, or the exception of
    \<^verbatim>\<open>subprocess.run\<close> when it cannot be started.
\<close>

record 'f externals =
  np_arange :: "'f \<Rightarrow> 'f \<Rightarrow> 'f \<Rightarrow> error + 'f list"
  format_fields :: "string \<Rightarrow> 'f \<Rightarrow> error + string"
  template_render :: "(string, 'f) dict \<Rightarrow> error + string"
  simulator :: "string \<Rightarrow> (string \<rightharpoonup> string) \<Rightarrow> error + (string \<rightharpoonup> string)"
  csv_reader :: "string \<Rightarrow> string list list"
  py_float :: "string \<Rightarrow> 'f option"
  div10 :: "'f \<Rightarrow> 'f"

text \<open>
  A step on the world returns its value or its exception, and the world it leaves.
\<close>

type_synonym ('f, 'a) action = "'f world \<Rightarrow> (error + 'a) \<times> 'f world"

definition bind_action :: "('f, 'a) action \<Rightarrow> ('a \<Rightarrow> ('f, 'b) action) \<Rightarrow> ('f, 'b) action" where
  "bind_action m f w = (case m w of (Inl e, w') \<Rightarrow> (Inl e, w') | (Inr x, w') \<Rightarrow> f x w')"









text \<open>
  \<^verbatim>\<open>np.save(dir_output / file, array)\<close>: the file cannot be opened, \<^verbatim>\<open>FileNotFoundError\<close>,
  when \<^verbatim>\<open>dir_output\<close> does not exist.
\<close>

definition np_save :: "string \<Rightarrow> 'f npy \<Rightarrow> ('f, unit) action" where
  "np_save file a w =
     (if dir_output_exists w then (Inr (), w\<lparr> npy_files := (npy_files w)(file \<mapsto> a) \<rparr>)
      else (Inl FileNotFoundError, w))"

text \<open>The second loop of \<^verbatim>\<open>run\<close>: one array per variable.\<close>

fun save_variables :: "(string, 'f list) dict \<Rightarrow> ('f, unit) action" where
  "save_variables [] w = (Inr (), w)"
| "save_variables ((name, var_values) # rest) w =
     bind_action (np_save (name @ ''.npy'') (FloatArray (np_array var_values)))
       (\<lambda>_. save_variables rest) w"




section \<open>Instances for the examples\<close>

text \<open>
  The examples run the code on concrete inputs. There \<open>'f\<close> is \<^typ>\<open>real\<close>, every number is one
  that a float holds exactly, and the variables are given as lists, so that \<^verbatim>\<open>np.arange\<close> is
  not called. The only replacement field that is expanded is \<^verbatim>\<open>{}\<close>, on the values 0.0 and
  0.5, for which \<^verbatim>\<open>"{}".format(v)\<close> is \<^verbatim>\<open>0.0\<close> and \<^verbatim>\<open>0.5\<close>.
\<close>

definition example_arange :: "real \<Rightarrow> real \<Rightarrow> real \<Rightarrow> error + real list" where
  "example_arange start end' step = Inl (OtherError ''np.arange is not called'')"

definition example_format_fields :: "string \<Rightarrow> real \<Rightarrow> error + string" where
  "example_format_fields format_str v =
     (if format_str = ''{}'' \<and> v = 0 then Inr ''0.0''
      else if format_str = ''{}'' \<and> v = 1/2 then Inr ''0.5''
      else Inl (OtherError ''not a format of the examples''))"

text \<open>
  A reader for texts without quotes and carriage returns, on which \<^verbatim>\<open>csv.reader\<close> with the
  tab delimiter yields, for every line, its cells between the tabs, and the empty row for
  an empty line. \<open>tsv\<close> writes rows as such a text.
\<close>

fun split_on :: "char \<Rightarrow> string \<Rightarrow> string list" where
  "split_on c [] = [[]]"
| "split_on c (x # xs) =
     (if x = c then [] # split_on c xs
      else (case split_on c xs of [] \<Rightarrow> [[x]] | w # ws \<Rightarrow> (x # w) # ws))"

definition example_csv_reader :: "string \<Rightarrow> string list list" where
  "example_csv_reader text =
     map (\<lambda>line. if line = [] then [] else split_on (CHR 0x09) line) (split_on (CHR 0x0A) text)"

definition tsv :: "string list list \<Rightarrow> string" where
  "tsv rows = str_join [CHR 0x0A] (map (str_join [CHR 0x09]) rows)"

text \<open>The numerals of the example reports, each with the float it denotes.\<close>

definition example_py_float :: "string \<Rightarrow> real option" where
  "example_py_float s =
     map_of [(''0.0'', 0), (''0.5'', 1/2), (''1.0'', 1), (''2.0'', 2), (''10.0'', 10),
             (''25.0'', 25)] s"

definition example_div10 :: "real \<Rightarrow> real" where
  "example_div10 x = x / 10"

text \<open>
  A report with the header row and three data rows; the first data row has no ninth
  cell, the other two have one.
\<close>

definition example_report :: string where
  "example_report = tsv
     [[''Y (ang)'', ''Ec (eV)'', ''Ev (eV)'', ''E (V/cm)'', ''Ef (eV)'', ''n (cm-3)'',
       ''p (cm-3)'', ''Nd - Na (cm-3)'', ''el eval 1 (eV)''],
      [''0.0'', ''1.0'', ''1.0'', ''0.0'', ''0.0'', ''2.0'', ''2.0'', ''0.0''],
      [''10.0'', ''1.0'', ''1.0'', ''0.0'', ''0.0'', ''2.0'', ''2.0'', ''0.0'', ''0.5''],
      [''25.0'', ''1.0'', ''1.0'', ''0.0'', ''0.0'', ''2.0'', ''2.0'', ''0.0'', ''2.0'']]"







section \<open>The parameter space: points, shape and order\<close>

lemma product_step_block:
  "concat (map ((\<lambda>r. map ((@) r) P) \<circ> (\<lambda>y. x @ [y])) pool) =
   map ((@) x) (concat (map (\<lambda>y. map ((#) y) P) pool))"
  by (induction pool) simp_all

lemma foldl_product_step:
  "foldl (\<lambda>result pool. concat (map (\<lambda>x. map (\<lambda>y. x @ [y]) pool) result)) res pools =
   concat (map (\<lambda>r. map (\<lambda>t. r @ t) (product_lists pools)) res)"
proof (induction pools arbitrary: res)
  case Nil
  show ?case by (induction res) simp_all
next
  case (Cons pool pools)
  have "concat (map (\<lambda>r. map (\<lambda>t. r @ t) (product_lists pools))
          (concat (map (\<lambda>x. map (\<lambda>y. x @ [y]) pool) res))) =
        concat (map (\<lambda>r. map (\<lambda>t. r @ t) (product_lists (pool # pools))) res)"
    by (induction res) (simp_all add: product_step_block)
  then show ?case by (simp add: Cons.IH)
qed

lemma itertools_product_eq: "itertools_product pools = product_lists pools"
  by (simp add: itertools_product_def foldl_product_step map_idI)

lemma length_product_lists_prod: "length (product_lists xss) = prod_list (map length xss)"
  by (induction xss) (simp_all add: length_concat o_def sum_list_triv)

lemma init_variables_distinct:
  "init_variables arange vars d = Inr d' \<Longrightarrow> distinct (map fst d) \<Longrightarrow> distinct (map fst d')"
  by (induction arange vars d rule: init_variables.induct)
     (auto split: var_value.splits sum.splits simp: distinct_update)

lemma init_variables_empty:
  "init_variables arange vars d = Inr d' \<Longrightarrow> d' = [] \<longleftrightarrow> vars = [] \<and> d = []"
proof (induction arange vars d rule: init_variables.induct)
  case (1 arange d)
  then show ?case by auto
next
  case (2 arange var vars d)
  have ne: "\<And>xs. AList.update (var_name var) xs d \<noteq> []" by (cases d) auto
  from 2 show ?case by (auto split: var_value.splits sum.splits simp: ne)
qed

lemma map_error_getitem_keys_aux:
  "distinct (map fst d) \<Longrightarrow> set ks \<subseteq> set d \<Longrightarrow> map_error (getitem d) (map fst ks) = Inr (map snd ks)"
  by (induction ks) (auto simp: getitem_def)

lemma map_error_getitem_keys:
  "distinct (map fst d) \<Longrightarrow> map_error (getitem d) (map fst d) = Inr (map snd d)"
  by (rule map_error_getitem_keys_aux) auto


lemma ParamsManager_init_distinct:
  "ParamsManager_init arange consts vars = Inr pm \<Longrightarrow> distinct (map fst (variables pm))"
  by (auto simp: ParamsManager_init_def split: sum.splits dest: init_variables_distinct)

lemma ParamsManager_init_no_variables:
  "ParamsManager_init arange consts vars = Inr pm \<Longrightarrow> variables pm = [] \<longleftrightarrow> vars = []"
  by (auto simp: ParamsManager_init_def split: sum.splits dest: init_variables_empty)

lemma generate_variables_distinct:
  assumes "distinct (map fst (variables pm))" "variables pm \<noteq> []"
  shows "generate_variables pm =
    Inr (map (\<lambda>combination. dict_of (zip (map fst (variables pm)) combination))
          (product_lists (map snd (variables pm))))"
  using assms by (simp add: generate_variables_def map_error_getitem_keys itertools_product_eq)

text \<open>
  Claim C1. For all constants and variables from which the manager is built, the iteration
  \<^verbatim>\<open>generate_variables\<close> raises nothing and yields as many points as the product of
  \<^verbatim>\<open>shape_variables\<close>; with no variable declared it yields exactly one point, the mapping
  of the constants.
\<close>

theorem generate_variables_count:
  assumes "ParamsManager_init arange consts vars = Inr pm"
  shows "\<exists>points. generate_variables pm = Inr points
           \<and> length points = prod_list (shape_variables pm)
           \<and> (vars = [] \<longrightarrow> points = [constants pm])"
proof (cases "vars = []")
  case True
  with assms have "variables pm = []" by (simp add: ParamsManager_init_no_variables)
  then show ?thesis by (simp add: generate_variables_def shape_variables_def)
next
  case False
  with assms have ne: "variables pm \<noteq> []" by (simp add: ParamsManager_init_no_variables)
  from assms have "distinct (map fst (variables pm))" by (rule ParamsManager_init_distinct)
  from generate_variables_distinct [OF this ne] False show ?thesis
    by (simp add: length_product_lists_prod shape_variables_def o_def)
qed

theorem generate_variables_count_witness:
  "\<exists>pm points pm' points'.
     ParamsManager_init example_arange
       [\<lparr>const_name = ''T'', const_value = 300::real\<rparr>] [] = Inr pm
     \<and> generate_variables pm = Inr points \<and> points = [[(''T'', 300)]]
     \<and> length points = prod_list (shape_variables pm)
     \<and> ParamsManager_init example_arange
       [\<lparr>const_name = ''T'', const_value = 300::real\<rparr>]
       [\<lparr>var_name = ''V'', var_value = ValueList [0, 1/2], var_format = Some ''{:.1f}''\<rparr>,
        \<lparr>var_name = ''W'', var_value = ValueList [1, 2, 3], var_format = None\<rparr>] = Inr pm'
     \<and> generate_variables pm' = Inr points' \<and> length points' = 6
     \<and> prod_list (shape_variables pm') = 6"
proof -
  let ?pm = "\<lparr>constants = [(''T'', 300::real)], variables = [], variable_formats = []\<rparr>"
  let ?pm' = "\<lparr>constants = [(''T'', 300::real)],
               variables = [(''V'', [0, 1/2]), (''W'', [1, 2, 3])],
               variable_formats = [(''V'', Some ''{:.1f}''), (''W'', None)]\<rparr>"
  have h: "ParamsManager_init example_arange [\<lparr>const_name = ''T'', const_value = 300::real\<rparr>] [] = Inr ?pm"
    by (simp add: ParamsManager_init_def dict_of_def)
  have h': "ParamsManager_init example_arange [\<lparr>const_name = ''T'', const_value = 300::real\<rparr>]
       [\<lparr>var_name = ''V'', var_value = ValueList [0, 1/2], var_format = Some ''{:.1f}''\<rparr>,
        \<lparr>var_name = ''W'', var_value = ValueList [1, 2, 3], var_format = None\<rparr>] = Inr ?pm'"
    by (simp add: ParamsManager_init_def dict_of_def)
  have s: "prod_list (shape_variables ?pm') = 6" by (simp add: shape_variables_def)
  from generate_variables_count [OF h] generate_variables_count [OF h'] h h' s
  show ?thesis by simp
qed


lemma update_new_key: "k \<notin> fst ` set al \<Longrightarrow> AList.update k v al = al @ [(k, v)]"
  by (induction al) auto

lemma foldl_update_distinct:
  "distinct (map fst (acc @ ps)) \<Longrightarrow> foldl (\<lambda>d (k, v). AList.update k v d) acc ps = acc @ ps"
proof (induction ps arbitrary: acc)
  case Nil
  show ?case by simp
next
  case (Cons p ps)
  obtain k v where p: "p = (k, v)" by (cases p)
  from Cons.prems p have "k \<notin> fst ` set acc" by auto
  then have u: "AList.update k v acc = acc @ [(k, v)]" by (rule update_new_key)
  from Cons.prems p have "distinct (map fst ((acc @ [(k, v)]) @ ps))" by simp
  from Cons.IH [OF this] show ?case by (simp add: p u)
qed

lemma dict_of_distinct: "distinct (map fst ps) \<Longrightarrow> dict_of ps = ps"
  using foldl_update_distinct [of "[]" ps] by (simp add: dict_of_def)






section \<open>Construction of the parameter space and name collisions\<close>

lemma map_of_init_constants:
  "map_of (init_constants consts d) =
   map_of (rev (map (\<lambda>c. (const_name c, const_value c)) consts) @ d)"
  by (induction "consts" arbitrary: d) (simp_all add: update_conv')

lemma map_of_foldl_update:
  "map_of (foldl (\<lambda>d (k, v). AList.update k v d) acc ps) = map_of (rev ps @ acc)"
  by (induction ps arbitrary: acc) (auto simp: update_conv')

lemma map_of_dict_of: "map_of (dict_of ps) = map_of (rev ps)"
  by (simp add: dict_of_def map_of_foldl_update)

lemma init_variables_succeeds:
  "list_all (\<lambda>var. case var_value var of ValueList xs \<Rightarrow> True
                     | Array start end' step \<Rightarrow> (\<exists>xs. arange start end' step = Inr xs)) vars
   \<Longrightarrow> \<exists>d'. init_variables arange vars d = Inr d'"
  by (induction arange vars d rule: init_variables.induct) (auto split: var_value.splits)

lemma init_variables_keys:
  "init_variables arange vars d = Inr d' \<Longrightarrow> set (map fst d') = set (map fst d) \<union> var_name ` set vars"
  by (induction arange vars d rule: init_variables.induct)
     (auto split: var_value.splits sum.splits simp: update_keys)

lemma init_constants_distinct:
  "distinct (map fst d) \<Longrightarrow> distinct (map fst (init_constants cs d))"
  by (induction cs arbitrary: d) (simp_all add: distinct_update)

lemma foldl_update_keys_distinct:
  "distinct (map fst acc) \<Longrightarrow> distinct (map fst (foldl (\<lambda>d (k, v). AList.update k v d) acc ps))"
  by (induction ps arbitrary: acc) (auto simp: distinct_update)

lemma dict_of_keys_distinct: "distinct (map fst (dict_of ps))"
  by (simp add: dict_of_def foldl_update_keys_distinct)

lemma init_variables_values:
  "list_all2 (\<lambda>var xs. case var_value var of ValueList ys \<Rightarrow> xs = ys
                | Array start end' step \<Rightarrow> arange start end' step = Inr xs) vars vals
   \<Longrightarrow> init_variables arange vars d =
       Inr (foldl (\<lambda>d (k, v). AList.update k v d) d (zip (map var_name vars) vals))"
proof (induction vars arbitrary: d vals)
  case Nil
  then show ?case by simp
next
  case (Cons var vars)
  from Cons.prems obtain xs rest where vals: "vals = xs # rest"
    and x: "case var_value var of ValueList ys \<Rightarrow> xs = ys
              | Array start end' step \<Rightarrow> arange start end' step = Inr xs"
    and r: "list_all2 (\<lambda>var xs. case var_value var of ValueList ys \<Rightarrow> xs = ys
                | Array start end' step \<Rightarrow> arange start end' step = Inr xs) vars rest"
    by (auto simp: list_all2_Cons1)
  from x Cons.IH [OF r] show ?case
    by (cases "var_value var") (simp_all add: vals)
qed

theorem ParamsManager_init_collision_counterexample:
  "ParamsManager_init example_arange
     [\<lparr>const_name = ''T'', const_value = 300\<rparr>, \<lparr>const_name = ''T'', const_value = 77\<rparr>]
     [\<lparr>var_name = ''T'', var_value = ValueList [1, 2], var_format = Some ''a''\<rparr>,
      \<lparr>var_name = ''T'', var_value = ValueList [3], var_format = None\<rparr>]
   = Inr \<lparr>constants = [(''T'', 77)], variables = [(''T'', [3])],
          variable_formats = [(''T'', None)]\<rparr>"
  by (simp add: ParamsManager_init_def dict_of_def)

text \<open>
  Claim C3, as amended. No declared name is checked against another: for every input,
  with colliding names or without, the construction raises nothing when every range is
  materialised (it has no exception of its own). The constants and the variables are two
  mappings; within each, and in the mapping of the formats, a name has one entry, and its
  value is the one of the last declaration of that name: a later declaration silently
  replaces the value of an earlier one. (\<open>vals\<close> are the value lists of the variables, in
  declaration order: the list itself, or what \<^verbatim>\<open>np.arange\<close> returns.)
\<close>

theorem ParamsManager_init_collision:
  assumes "list_all2 (\<lambda>var xs. case var_value var of ValueList ys \<Rightarrow> xs = ys
              | Array start end' step \<Rightarrow> arange start end' step = Inr xs) vars vals"
  shows "\<exists>pm. ParamsManager_init arange cs vars = Inr pm
           \<and> map_of (constants pm) = map_of (rev (map (\<lambda>c. (const_name c, const_value c)) cs))
           \<and> distinct (map fst (constants pm))
           \<and> map_of (variables pm) = map_of (rev (zip (map var_name vars) vals))
           \<and> distinct (map fst (variables pm))
           \<and> set (map fst (variables pm)) = var_name ` set vars
           \<and> map_of (variable_formats pm) = map_of (rev (map (\<lambda>var. (var_name var, var_format var)) vars))
           \<and> distinct (map fst (variable_formats pm))"
proof -
  let ?vd = "foldl (\<lambda>d (k, v). AList.update k v d) [] (zip (map var_name vars) vals)"
  from init_variables_values [OF assms] have vd: "init_variables arange vars [] = Inr ?vd" .
  have m: "map_of ?vd = map_of (rev (zip (map var_name vars) vals))"
    by (simp add: map_of_foldl_update)
  from init_variables_keys [OF vd] init_variables_distinct [OF vd] vd m show ?thesis
    by (simp add: ParamsManager_init_def map_of_init_constants map_of_dict_of
          init_constants_distinct dict_of_keys_distinct)
qed

theorem ParamsManager_init_collision_witness:
  "\<exists>pm. ParamsManager_init example_arange
       [\<lparr>const_name = ''T'', const_value = 300\<rparr>, \<lparr>const_name = ''T'', const_value = 77\<rparr>]
       [\<lparr>var_name = ''T'', var_value = ValueList [1, 2], var_format = Some ''a''\<rparr>,
        \<lparr>var_name = ''T'', var_value = ValueList [3], var_format = None\<rparr>] = Inr pm
     \<and> map_of (constants pm) ''T'' = Some 77
     \<and> map fst (constants pm) = [''T'']
     \<and> map_of (variables pm) ''T'' = Some [3]
     \<and> map fst (variables pm) = [''T'']
     \<and> map_of (variable_formats pm) ''T'' = Some None
     \<and> map fst (variable_formats pm) = [''T'']"
proof -
  let ?cs = "[\<lparr>const_name = ''T'', const_value = 300::real\<rparr>,
                  \<lparr>const_name = ''T'', const_value = 77\<rparr>]"
  let ?vars = "[\<lparr>var_name = ''T'', var_value = ValueList [1, 2::real], var_format = Some ''a''\<rparr>,
                \<lparr>var_name = ''T'', var_value = ValueList [3], var_format = None\<rparr>]"
  have h: "list_all2 (\<lambda>var xs. case var_value var of ValueList ys \<Rightarrow> xs = ys
              | Array start end' step \<Rightarrow> example_arange start end' step = Inr xs)
            ?vars [[1, 2], [3]]"
    by simp
  from ParamsManager_init_collision [OF h, of ?cs] obtain pm where
    pm: "ParamsManager_init example_arange ?cs ?vars = Inr pm" and
    c: "map_of (constants pm) = map_of (rev (map (\<lambda>c. (const_name c, const_value c)) ?cs))" and
    v: "map_of (variables pm) = map_of (rev (zip (map var_name ?vars) [[1, 2], [3]]))" and
    f: "map_of (variable_formats pm) = map_of (rev (map (\<lambda>var. (var_name var, var_format var)) ?vars))"
    by blast
  from c have c': "map_of (constants pm) ''T'' = Some 77" by simp
  from v have v': "map_of (variables pm) ''T'' = Some [3]" by simp
  from f have f': "map_of (variable_formats pm) ''T'' = Some None" by simp
  from pm have k: "map fst (constants pm) = [''T'']" "map fst (variables pm) = [''T'']"
    "map fst (variable_formats pm) = [''T'']"
    by (auto simp: ParamsManager_init_def dict_of_def)
  show ?thesis by (intro exI [of _ pm] conjI) (rule pm c' v' f' k)+
qed

section \<open>Identifiers\<close>

lemma map_error_segments:
  "map_error (dir_name_segment fmt pm) point = Inr results \<Longrightarrow>
   \<exists>formatted.
     results = map2 (\<lambda>name s. name @ ''('' @ s @ '')'') (map fst point) formatted
     \<and> list_all2 (\<lambda>(name, v) s. \<exists>format_str.
           map_of (variable_formats pm) name = Some (Some format_str)
           \<and> str_format fmt format_str v = Inr s) point formatted"
proof (induction point arbitrary: results)
  case Nil
  then show ?case by simp
next
  case (Cons item point)
  obtain name v where item: "item = (name, v)" by (cases item)
  from Cons.prems obtain r rs where r: "dir_name_segment fmt pm item = Inr r"
    and rs: "map_error (dir_name_segment fmt pm) point = Inr rs"
    and results: "results = r # rs"
    by (auto split: sum.splits)
  from r item obtain format_str s where
    f: "map_of (variable_formats pm) name = Some (Some format_str)"
    and s: "str_format fmt format_str v = Inr s"
    and r': "r = name @ ''('' @ s @ '')''"
    by (auto simp: dir_name_segment_def getitem_def split: option.splits sum.splits)
  from Cons.IH [OF rs] obtain formatted where
    "rs = map2 (\<lambda>name s. name @ ''('' @ s @ '')'') (map fst point) formatted"
    "list_all2 (\<lambda>(name, v) s. \<exists>format_str.
           map_of (variable_formats pm) name = Some (Some format_str)
           \<and> str_format fmt format_str v = Inr s) point formatted"
    by blast
  with f s r' results item show ?case
    by (intro exI [of _ "s # formatted"]) simp
qed

lemma generated_point_keys:
  assumes "distinct (map fst (variables pm))" "variables pm \<noteq> []"
    "generate_variables pm = Inr points" "point \<in> set points"
  shows "map fst point = map fst (variables pm)"
proof -
  from generate_variables_distinct [OF assms(1,2)] assms(3,4)
  obtain combination where c: "combination \<in> set (product_lists (map snd (variables pm)))"
    and p: "point = dict_of (zip (map fst (variables pm)) combination)"
    by auto
  from c have l: "length combination = length (variables pm)"
    by (auto dest: in_set_product_lists_length)
  with assms(1) have "dict_of (zip (map fst (variables pm)) combination)
      = zip (map fst (variables pm)) combination"
    by (intro dict_of_distinct) simp
  with p l show ?thesis by simp
qed

lemma init_variables_order:
  "init_variables arange vars d = Inr d' \<Longrightarrow> distinct (map fst d @ map var_name vars)
   \<Longrightarrow> map fst d' = map fst d @ map var_name vars"
proof (induction arange vars d rule: init_variables.induct)
  case (1 arange d)
  then show ?case by simp
next
  case (2 arange var vars d)
  from "2.prems"(2) have new: "var_name var \<notin> fst ` set d" by auto
  from "2.prems"(2) have dist: "\<And>xs. distinct (map fst (d @ [(var_name var, xs)]) @ map var_name vars)"
    by auto
  show ?case
  proof (cases "var_value var")
    case (ValueList xs)
    with "2.prems"(1) new have "init_variables arange vars (d @ [(var_name var, xs)]) = Inr d'"
      by (simp add: update_new_key)
    with "2.IH"(1) [OF ValueList] dist [of xs] new show ?thesis
      by (simp add: update_new_key)
  next
    case (Array start end' step)
    with "2.prems"(1) obtain xs where a: "arange start end' step = Inr xs"
      by (auto split: sum.splits)
    with Array "2.prems"(1) new have "init_variables arange vars (d @ [(var_name var, xs)]) = Inr d'"
      by (simp add: update_new_key)
    with "2.IH"(2) [OF Array a] dist [of xs] new show ?thesis
      by (simp add: update_new_key)
  qed
qed


theorem get_dir_name_printf_counterexample:
  "bind_error
     (ParamsManager_init example_arange [\<lparr>const_name = ''T'', const_value = 300\<rparr>]
        [\<lparr>var_name = ''V'', var_value = ValueList [0, 1/2], var_format = Some ''%.1f''\<rparr>])
     (\<lambda>pm. bind_error (generate_variables pm) (map_error (get_dir_name example_format_fields pm)))
   = Inr [''V(%.1f)'', ''V(%.1f)'']"
  by (simp add: bind_error_def ParamsManager_init_def dict_of_def generate_variables_def
        getitem_def itertools_product_def get_dir_name_def dir_name_segment_def str_format_def)

text \<open>
  Claim C4, as amended. For every sweep point whose identifier \<^verbatim>\<open>_get_dir_name\<close> builds, the
  identifier consists only of one segment per variable, \<^verbatim>\<open>name(formatted_value)\<close>, joined by
  \<^verbatim>\<open>_\<close> in the order of the variables (their declaration order when the names are distinct),
  and no constant appears in it; the formatted value is \<^verbatim>\<open>format_str.format(value)\<close>, that
  is \<^verbatim>\<open>str.format\<close>, which returns a format string with no braces unchanged: for a single
  variable V with format \<^verbatim>\<open>%.1f\<close> and values 0.0 and 0.5 both identifiers are \<^verbatim>\<open>V(%.1f)\<close>.
\<close>

theorem get_dir_name_segments:
  assumes "ParamsManager_init arange consts vars = Inr pm"
    and "generate_variables pm = Inr points" and "point \<in> set points"
    and "get_dir_name fmt pm point = Inr ident"
  shows "\<exists>formatted.
           ident = str_join ''_''
             (map2 (\<lambda>name s. name @ ''('' @ s @ '')'') (map fst (variables pm)) formatted)
           \<and> list_all2 (\<lambda>(name, v) s. \<exists>format_str.
                 map_of (variable_formats pm) name = Some (Some format_str)
                 \<and> str_format fmt format_str v = Inr s
                 \<and> (CHR ''{'' \<notin> set format_str \<and> CHR ''}'' \<notin> set format_str \<longrightarrow> s = format_str))
               point formatted
           \<and> map fst point = map fst (variables pm)
           \<and> (distinct (map var_name vars) \<longrightarrow> map fst (variables pm) = map var_name vars)"
proof -
  from assms(4) obtain results where
    results: "map_error (dir_name_segment fmt pm) point = Inr results"
    and ident: "ident = str_join ''_'' results"
    by (auto simp: get_dir_name_def split: sum.splits)
  from map_error_segments [OF results] obtain formatted where
    r: "results = map2 (\<lambda>name s. name @ ''('' @ s @ '')'') (map fst point) formatted"
    and f: "list_all2 (\<lambda>(name, v) s. \<exists>format_str.
           map_of (variable_formats pm) name = Some (Some format_str)
           \<and> str_format fmt format_str v = Inr s) point formatted"
    by blast
  from f have f': "list_all2 (\<lambda>(name, v) s. \<exists>format_str.
           map_of (variable_formats pm) name = Some (Some format_str)
           \<and> str_format fmt format_str v = Inr s
           \<and> (CHR ''{'' \<notin> set format_str \<and> CHR ''}'' \<notin> set format_str \<longrightarrow> s = format_str))
         point formatted"
    by (rule list_all2_mono) (auto simp: str_format_def)
  have keys: "map fst point = map fst (variables pm)"
  proof (cases "vars = []")
    case True
    with assms(1) have v: "variables pm = []" and fs: "variable_formats pm = []"
      by (auto simp: ParamsManager_init_def dict_of_def split: sum.splits)
    have "point = []"
    proof (cases point)
      case Nil
      then show ?thesis .
    next
      case (Cons item rest)
      with results fs show ?thesis
        by (cases item) (simp add: dir_name_segment_def getitem_def)
    qed
    with v show ?thesis by simp
  next
    case False
    with assms(1) have ne: "variables pm \<noteq> []" by (simp add: ParamsManager_init_no_variables)
    from assms(1) have "distinct (map fst (variables pm))" by (rule ParamsManager_init_distinct)
    from generated_point_keys [OF this ne assms(2,3)] show ?thesis .
  qed
  have order: "map fst (variables pm) = map var_name vars" if "distinct (map var_name vars)"
    using assms(1) that init_variables_order [of arange vars "[]" "variables pm"]
    by (auto simp: ParamsManager_init_def split: sum.splits)
  from ident r f' keys order show ?thesis by auto
qed


theorem get_dir_name_segments_witness:
  "\<exists>pm points.
     ParamsManager_init example_arange [\<lparr>const_name = ''T'', const_value = 300\<rparr>]
       [\<lparr>var_name = ''V'', var_value = ValueList [0, 1/2], var_format = Some ''%.1f''\<rparr>,
        \<lparr>var_name = ''W'', var_value = ValueList [7], var_format = Some ''w''\<rparr>] = Inr pm
     \<and> generate_variables pm = Inr points
     \<and> [(''V'', 1/2), (''W'', 7)] \<in> set points
     \<and> get_dir_name example_format_fields pm [(''V'', 1/2), (''W'', 7)] = Inr ''V(%.1f)_W(w)''
     \<and> (\<exists>formatted. ''V(%.1f)_W(w)'' = str_join ''_''
            (map2 (\<lambda>name s. name @ ''('' @ s @ '')'') (map fst (variables pm)) formatted))
     \<and> map fst (variables pm) = [''V'', ''W'']"
proof -
  let ?cs = "[\<lparr>const_name = ''T'', const_value = 300::real\<rparr>]"
  let ?vars = "[\<lparr>var_name = ''V'', var_value = ValueList [0, 1/2::real], var_format = Some ''%.1f''\<rparr>,
                \<lparr>var_name = ''W'', var_value = ValueList [7], var_format = Some ''w''\<rparr>]"
  let ?pm = "\<lparr>constants = [(''T'', 300::real)], variables = [(''V'', [0, 1/2]), (''W'', [7])],
              variable_formats = [(''V'', Some ''%.1f''), (''W'', Some ''w'')]\<rparr>"
  let ?points = "[[(''V'', 0), (''W'', 7)], [(''V'', 1/2), (''W'', 7::real)]]"
  have h: "ParamsManager_init example_arange ?cs ?vars = Inr ?pm"
    by (simp add: ParamsManager_init_def dict_of_def)
  have g: "generate_variables ?pm = Inr ?points"
    by (simp add: generate_variables_def getitem_def itertools_product_def dict_of_def)
  have p: "[(''V'', 1/2), (''W'', 7)] \<in> set ?points" by simp
  have i: "get_dir_name example_format_fields ?pm [(''V'', 1/2), (''W'', 7)] = Inr ''V(%.1f)_W(w)''"
    by (simp add: get_dir_name_def dir_name_segment_def getitem_def str_format_def)
  from get_dir_name_segments [OF h g p i] obtain formatted where
    "''V(%.1f)_W(w)'' = str_join ''_''
       (map2 (\<lambda>name s. name @ ''('' @ s @ '')'') (map fst (variables ?pm)) formatted)"
    "distinct (map var_name ?vars) \<longrightarrow> map fst (variables ?pm) = map var_name ?vars"
    by blast
  then have c: "\<exists>formatted. ''V(%.1f)_W(w)'' = str_join ''_''
            (map2 (\<lambda>name s. name @ ''('' @ s @ '')'') (map fst (variables ?pm)) formatted)"
    and k: "map fst (variables ?pm) = [''V'', ''W'']" by auto
  show ?thesis
    by (intro exI [of _ ?pm] exI [of _ ?points] conjI) (rule h g p i c k)+
qed

text \<open>
  Claim C5 fails on the code. A variable declared without a format has the format \<^verbatim>\<open>None\<close>
  (the default of \<^verbatim>\<open>Variable.format\<close>), and \<^verbatim>\<open>_get_dir_name\<close> calls \<^verbatim>\<open>.format\<close> on it: for a
  single such variable with one value, the identifier of the only sweep point is not built,
  \<^verbatim>\<open>AttributeError\<close> is raised.
\<close>

theorem get_dir_name_format_None:
  "bind_error
     (ParamsManager_init arange cs
        [\<lparr>var_name = name, var_value = ValueList [v], var_format = None\<rparr>])
     (\<lambda>pm. bind_error (generate_variables pm) (map_error (get_dir_name fmt pm)))
   = Inl AttributeError"
  by (simp add: bind_error_def ParamsManager_init_def dict_of_def generate_variables_def
        getitem_def itertools_product_def get_dir_name_def dir_name_segment_def)

section \<open>The output report\<close>

lemma foldl_update_None:
  "distinct (map fst acc @ ks) \<Longrightarrow>
   foldl (\<lambda>d key. AList.update key None d) acc ks = acc @ map (\<lambda>key. (key, None)) ks"
proof (induction ks arbitrary: acc)
  case Nil
  show ?case by simp
next
  case (Cons k ks)
  from Cons.prems have "k \<notin> fst ` set acc" by auto
  then have u: "AList.update k None acc = acc @ [(k, None)]" by (rule update_new_key)
  from Cons.prems have "distinct (map fst (acc @ [(k, None)]) @ ks)" by simp
  from Cons.IH [OF this] show ?case by (simp add: u)
qed

lemma dict_row_distinct:
  assumes "distinct names"
  shows "dict_row names row =
    zip names (map Some row) @ map (\<lambda>key. (key, None)) (drop (length row) names)"
proof -
  have m: "map fst (zip names (map Some row)) = take (length row) names"
    by (simp add: map_fst_zip_take min_def)
  with assms have d: "dict_of (zip names (map Some row)) = zip names (map Some row)"
    by (intro dict_of_distinct) simp
  from assms have "distinct (take (length row) names @ drop (length row) names)" by simp
  with m have "distinct (map fst (zip names (map Some row)) @ drop (length row) names)" by simp
  from foldl_update_None [OF this] d show ?thesis by (simp add: dict_row_def)
qed

lemma map_of_restval: "x \<in> set ks \<Longrightarrow> map_of (map (\<lambda>key. (key, None)) ks) x = Some None"
  by (induction ks) auto

lemma map_of_row:
  "distinct names \<Longrightarrow> k < length names \<Longrightarrow>
   map_of (zip names (map Some row) @ map (\<lambda>key. (key, None)) (drop (length row) names)) (names ! k)
   = Some (if k < length row then Some (row ! k) else None)"
proof (induction names arbitrary: row k)
  case Nil
  then show ?case by simp
next
  case (Cons n ns)
  show ?case
  proof (cases row)
    case Nil
    from Cons.prems have "(n # ns) ! k \<in> set (n # ns)" by (intro nth_mem) simp
    from map_of_restval [OF this] Nil show ?thesis by simp
  next
    case (Cons r rs)
    show ?thesis
    proof (cases k)
      case 0
      with Cons show ?thesis by simp
    next
      case (Suc k')
      with Cons.prems have "ns ! k' \<noteq> n" by auto
      with Suc Cons Cons.prems Cons.IH [of k' rs] show ?thesis by simp
    qed
  qed
qed

lemma distinct_FIELD_NAMES: "distinct FIELD_NAMES"
  by (simp add: FIELD_NAMES_def)

lemma getitem_dict_row:
  "k < 9 \<Longrightarrow> getitem (dict_row FIELD_NAMES row) (FIELD_NAMES ! k)
     = Inr (if k < length row then Some (row ! k) else None)"
  using map_of_row [OF distinct_FIELD_NAMES, of k row]
  by (simp add: getitem_def dict_row_distinct [OF distinct_FIELD_NAMES]) (simp add: FIELD_NAMES_def)

lemma float_cell_dict_row:
  "k < 9 \<Longrightarrow> float_cell pf (dict_row FIELD_NAMES row) (FIELD_NAMES ! k)
     = float_of pf (if k < length row then Some (row ! k) else None)"
  by (simp add: float_cell_def getitem_dict_row bind_error_def)

lemma float_of_Inr:
  "float_of pf (if k < length row then Some (row ! k) else None) = Inr y
   \<longleftrightarrow> k < length row \<and> pf (row ! k) = Some y"
  by (auto simp: float_of_def split: option.splits)

lemma float_cell_keys:
  "float_cell pf (dict_row FIELD_NAMES row) ''Y (ang)''
     = float_of pf (if 0 < length row then Some (row ! 0) else None)"
  "float_cell pf (dict_row FIELD_NAMES row) ''Ec (eV)''
     = float_of pf (if 1 < length row then Some (row ! 1) else None)"
  "float_cell pf (dict_row FIELD_NAMES row) ''Ev (eV)''
     = float_of pf (if 2 < length row then Some (row ! 2) else None)"
  "float_cell pf (dict_row FIELD_NAMES row) ''E (V/cm)''
     = float_of pf (if 3 < length row then Some (row ! 3) else None)"
  "float_cell pf (dict_row FIELD_NAMES row) ''Ef (eV)''
     = float_of pf (if 4 < length row then Some (row ! 4) else None)"
  "float_cell pf (dict_row FIELD_NAMES row) ''n (cm-3)''
     = float_of pf (if 5 < length row then Some (row ! 5) else None)"
  "float_cell pf (dict_row FIELD_NAMES row) ''p (cm-3)''
     = float_of pf (if 6 < length row then Some (row ! 6) else None)"
  using float_cell_dict_row [of 0 pf row] float_cell_dict_row [of 1 pf row]
    float_cell_dict_row [of 2 pf row] float_cell_dict_row [of 3 pf row]
    float_cell_dict_row [of 4 pf row] float_cell_dict_row [of 5 pf row]
    float_cell_dict_row [of 6 pf row]
  by (simp_all add: FIELD_NAMES_def)

lemma getitem_ninth:
  "getitem (dict_row FIELD_NAMES row) ''el eval 1 (eV)''
     = Inr (if 8 < length row then Some (row ! 8) else None)"
  using getitem_dict_row [of 8 row] by (simp add: FIELD_NAMES_def)

lemma bind_error_Inr: "bind_error m f = Inr b \<longleftrightarrow> (\<exists>a. m = Inr a \<and> f a = Inr b)"
  by (cases m) (simp_all add: bind_error_def)

lemma set_ground_state_Inr:
  "set_ground_state pf d10 (dict_row FIELD_NAMES r) od = Inr od' \<longleftrightarrow>
   (if 8 < length r \<and> energy_ground_state od = None
    then \<exists>e y. pf (r ! 8) = Some e \<and> pf (r ! 0) = Some y
           \<and> od' = od\<lparr> energy_ground_state := Some e, position_ground_state := Some (d10 y) \<rparr>
    else od' = od)"
  by (auto simp: set_ground_state_def bind_error_Inr getitem_ninth float_cell_keys float_of_Inr
        float_of_def split: option.splits)

lemma parse_row_Inr:
  "parse_row pf d10 (dict_row FIELD_NAMES r) od = Inr od' \<longleftrightarrow>
   (\<exists>y ec ev ef fermi n p.
      6 < length r \<and> pf (r ! 0) = Some y \<and> pf (r ! 1) = Some ec \<and> pf (r ! 2) = Some ev
      \<and> pf (r ! 3) = Some ef \<and> pf (r ! 4) = Some fermi \<and> pf (r ! 5) = Some n
      \<and> pf (r ! 6) = Some p
      \<and> set_ground_state pf d10 (dict_row FIELD_NAMES r)
          (od\<lparr> z := z od @ [d10 y],
               energy_conduction := energy_conduction od @ [ec],
               energy_valence := energy_valence od @ [ev],
               electric_field := electric_field od @ [ef],
               energy_fermi := energy_fermi od @ [fermi],
               density_electron := density_electron od @ [n],
               density_hole := density_hole od @ [p] \<rparr>) = Inr od')"
  unfolding parse_row_def bind_error_Inr float_cell_keys float_of_Inr by auto


lemma parse_row_series:
  assumes "parse_row pf d10 (dict_row FIELD_NAMES r) od = Inr od'"
  shows "map Some (z od') = map Some (z od) @ [map_option d10 (pf (r ! 0))]"
    and "length (energy_conduction od') = Suc (length (energy_conduction od))"
    and "length (energy_valence od') = Suc (length (energy_valence od))"
    and "length (electric_field od') = Suc (length (electric_field od))"
    and "length (energy_fermi od') = Suc (length (energy_fermi od))"
    and "length (density_electron od') = Suc (length (density_electron od))"
    and "length (density_hole od') = Suc (length (density_hole od))"
  using assms by (auto simp: parse_row_Inr set_ground_state_Inr split: if_splits)

lemma parse_row_ground_set:
  assumes "parse_row pf d10 (dict_row FIELD_NAMES r) od = Inr od'"
    and "8 < length r" "energy_ground_state od = None"
  shows "\<exists>e y. pf (r ! 8) = Some e \<and> pf (r ! 0) = Some y
           \<and> energy_ground_state od' = Some e \<and> position_ground_state od' = Some (d10 y)"
  using assms by (auto simp: parse_row_Inr set_ground_state_Inr)

lemma parse_row_ground_keep:
  assumes "parse_row pf d10 (dict_row FIELD_NAMES r) od = Inr od'"
    and "\<not> (8 < length r \<and> energy_ground_state od = None)"
  shows "energy_ground_state od' = energy_ground_state od
         \<and> position_ground_state od' = position_ground_state od"
  using assms by (auto simp: parse_row_Inr set_ground_state_Inr)

lemma set_ground_state_succeeds:
  assumes "8 < length r \<and> energy_ground_state od = None \<longrightarrow> pf (r ! 8) \<noteq> None"
    and "pf (r ! 0) = Some y"
  shows "\<exists>od'. set_ground_state pf d10 (dict_row FIELD_NAMES r) od = Inr od'"
proof (cases "8 < length r \<and> energy_ground_state od = None")
  case True
  with assms(1) obtain e where "pf (r ! 8) = Some e" by auto
  with True assms(2) show ?thesis by (simp add: set_ground_state_Inr)
next
  case False
  then show ?thesis by (auto simp: set_ground_state_Inr)
qed

lemma parse_row_succeeds:
  assumes "6 < length r" "\<forall>k<7. pf (r ! k) \<noteq> None"
    and "8 < length r \<and> energy_ground_state od = None \<longrightarrow> pf (r ! 8) \<noteq> None"
  shows "\<exists>od'. parse_row pf d10 (dict_row FIELD_NAMES r) od = Inr od'"
proof -
  from assms(2) have "pf (r ! 0) \<noteq> None" "pf (r ! 1) \<noteq> None" "pf (r ! 2) \<noteq> None"
    "pf (r ! 3) \<noteq> None" "pf (r ! 4) \<noteq> None" "pf (r ! 5) \<noteq> None" "pf (r ! 6) \<noteq> None"
    by simp_all
  then obtain y ec ev ef fermi n p where c:
    "pf (r ! 0) = Some y" "pf (r ! 1) = Some ec" "pf (r ! 2) = Some ev" "pf (r ! 3) = Some ef"
    "pf (r ! 4) = Some fermi" "pf (r ! 5) = Some n" "pf (r ! 6) = Some p"
    by blast
  let ?od = "od\<lparr> z := z od @ [d10 y],
               energy_conduction := energy_conduction od @ [ec],
               energy_valence := energy_valence od @ [ev],
               electric_field := electric_field od @ [ef],
               energy_fermi := energy_fermi od @ [fermi],
               density_electron := density_electron od @ [n],
               density_hole := density_hole od @ [p] \<rparr>"
  from assms(3) have "8 < length r \<and> energy_ground_state ?od = None \<longrightarrow> pf (r ! 8) \<noteq> None"
    by simp
  from set_ground_state_succeeds [OF this c(1)] obtain od' where
    "set_ground_state pf d10 (dict_row FIELD_NAMES r) ?od = Inr od'" ..
  with assms(1) c have "parse_row pf d10 (dict_row FIELD_NAMES r) od = Inr od'"
    unfolding parse_row_Inr by blast
  then show ?thesis ..
qed

lemma parse_rows_series:
  "parse_rows pf d10 (Suc i) (map (dict_row FIELD_NAMES) rows) od = Inr od' \<Longrightarrow>
   map Some (z od') = map Some (z od) @ map (\<lambda>r. map_option d10 (pf (r ! 0))) rows
   \<and> length (energy_conduction od') = length (energy_conduction od) + length rows
   \<and> length (energy_valence od') = length (energy_valence od) + length rows
   \<and> length (electric_field od') = length (electric_field od) + length rows
   \<and> length (energy_fermi od') = length (energy_fermi od) + length rows
   \<and> length (density_electron od') = length (density_electron od) + length rows
   \<and> length (density_hole od') = length (density_hole od) + length rows"
proof (induction rows arbitrary: i od)
  case Nil
  then show ?case by simp
next
  case (Cons r rows)
  from Cons.prems obtain od1 where
    r: "parse_row pf d10 (dict_row FIELD_NAMES r) od = Inr od1" and
    rest: "parse_rows pf d10 (Suc (Suc i)) (map (dict_row FIELD_NAMES) rows) od1 = Inr od'"
    by (auto split: sum.splits)
  from Cons.IH [OF rest] parse_row_series [OF r] show ?case by simp
qed

lemma parse_rows_step:
  assumes "parse_rows pf d10 (Suc i) (map (dict_row FIELD_NAMES) (r # rows)) od = Inr od'"
  obtains od1 where "parse_row pf d10 (dict_row FIELD_NAMES r) od = Inr od1"
    and "parse_rows pf d10 (Suc (Suc i)) (map (dict_row FIELD_NAMES) rows) od1 = Inr od'"
  using assms by (auto split: sum.splits)

lemma parse_rows_ground_keep:
  "parse_rows pf d10 (Suc i) (map (dict_row FIELD_NAMES) rows) od = Inr od' \<Longrightarrow>
   energy_ground_state od \<noteq> None \<Longrightarrow>
   energy_ground_state od' = energy_ground_state od
   \<and> position_ground_state od' = position_ground_state od"
proof (induction rows arbitrary: i od)
  case Nil
  then show ?case by simp
next
  case (Cons r rows)
  from Cons.prems(1) obtain od1 where
    r: "parse_row pf d10 (dict_row FIELD_NAMES r) od = Inr od1" and
    rest: "parse_rows pf d10 (Suc (Suc i)) (map (dict_row FIELD_NAMES) rows) od1 = Inr od'"
    by (rule parse_rows_step)
  from parse_row_ground_keep [OF r] Cons.prems(2)
  have k: "energy_ground_state od1 = energy_ground_state od"
    "position_ground_state od1 = position_ground_state od" by simp_all
  with Cons.prems(2) have "energy_ground_state od1 \<noteq> None" by simp
  from Cons.IH [OF rest this] k show ?case by simp
qed

lemma parse_rows_ground_none:
  "parse_rows pf d10 (Suc i) (map (dict_row FIELD_NAMES) rows) od = Inr od' \<Longrightarrow>
   energy_ground_state od = None \<Longrightarrow> find (\<lambda>r. 8 < length r) rows = None \<Longrightarrow>
   energy_ground_state od' = None \<and> position_ground_state od' = position_ground_state od"
proof (induction rows arbitrary: i od)
  case Nil
  then show ?case by simp
next
  case (Cons r rows)
  from Cons.prems(1) obtain od1 where
    r: "parse_row pf d10 (dict_row FIELD_NAMES r) od = Inr od1" and
    rest: "parse_rows pf d10 (Suc (Suc i)) (map (dict_row FIELD_NAMES) rows) od1 = Inr od'"
    by (rule parse_rows_step)
  from Cons.prems(3) have short: "\<not> 8 < length r" and f: "find (\<lambda>r. 8 < length r) rows = None"
    by (auto split: if_splits)
  from parse_row_ground_keep [OF r] short
  have k: "energy_ground_state od1 = energy_ground_state od"
    "position_ground_state od1 = position_ground_state od" by simp_all
  with Cons.prems(2) have "energy_ground_state od1 = None" by simp
  from Cons.IH [OF rest this f] k show ?case by simp
qed

lemma parse_rows_ground_first:
  "parse_rows pf d10 (Suc i) (map (dict_row FIELD_NAMES) rows) od = Inr od' \<Longrightarrow>
   energy_ground_state od = None \<Longrightarrow> find (\<lambda>r. 8 < length r) rows = Some r \<Longrightarrow>
   \<exists>e y. pf (r ! 8) = Some e \<and> pf (r ! 0) = Some y
     \<and> energy_ground_state od' = Some e \<and> position_ground_state od' = Some (d10 y)"
proof (induction rows arbitrary: i od)
  case Nil
  then show ?case by simp
next
  case (Cons r' rows)
  from Cons.prems(1) obtain od1 where
    r: "parse_row pf d10 (dict_row FIELD_NAMES r') od = Inr od1" and
    rest: "parse_rows pf d10 (Suc (Suc i)) (map (dict_row FIELD_NAMES) rows) od1 = Inr od'"
    by (rule parse_rows_step)
  show ?case
  proof (cases "8 < length r'")
    case True
    with Cons.prems(3) have eq: "r' = r" by simp
    from parse_row_ground_set [OF r True Cons.prems(2)] obtain e y where
      c: "pf (r' ! 8) = Some e" "pf (r' ! 0) = Some y"
      and g: "energy_ground_state od1 = Some e" "position_ground_state od1 = Some (d10 y)"
      by blast
    from g have "energy_ground_state od1 \<noteq> None" by simp
    from parse_rows_ground_keep [OF rest this] c g eq show ?thesis by simp
  next
    case False
    with Cons.prems(3) have f: "find (\<lambda>r. 8 < length r) rows = Some r" by simp
    from parse_row_ground_keep [OF r] False Cons.prems(2)
    have "energy_ground_state od1 = None" by simp
    from Cons.IH [OF rest this f] show ?thesis .
  qed
qed

lemma parse_rows_succeeds:
  "list_all (\<lambda>r. 6 < length r \<and> (\<forall>k<7. pf (r ! k) \<noteq> None)) rows \<Longrightarrow>
   (energy_ground_state od = None \<longrightarrow>
      (case find (\<lambda>r. 8 < length r) rows of None \<Rightarrow> True | Some r \<Rightarrow> pf (r ! 8) \<noteq> None)) \<Longrightarrow>
   \<exists>od'. parse_rows pf d10 (Suc i) (map (dict_row FIELD_NAMES) rows) od = Inr od'"
proof (induction rows arbitrary: i od)
  case Nil
  then show ?case by simp
next
  case (Cons r rows)
  from Cons.prems(1) have wf: "6 < length r" "\<forall>k<7. pf (r ! k) \<noteq> None"
    and wfs: "list_all (\<lambda>r. 6 < length r \<and> (\<forall>k<7. pf (r ! k) \<noteq> None)) rows"
    by simp_all
  from Cons.prems(2) have "8 < length r \<and> energy_ground_state od = None \<longrightarrow> pf (r ! 8) \<noteq> None"
    by auto
  from parse_row_succeeds [OF wf this]
  obtain od1 where r: "parse_row pf d10 (dict_row FIELD_NAMES r) od = Inr od1" ..
  have "energy_ground_state od1 = None \<longrightarrow>
      (case find (\<lambda>r. 8 < length r) rows of None \<Rightarrow> True | Some r \<Rightarrow> pf (r ! 8) \<noteq> None)"
  proof (cases "8 < length r \<and> energy_ground_state od = None")
    case True
    with parse_row_ground_set [OF r] show ?thesis by auto
  next
    case False
    with parse_row_ground_keep [OF r] Cons.prems(2) show ?thesis by (cases "8 < length r") auto
  qed
  from Cons.IH [OF wfs this, of "Suc i"] obtain od' where
    "parse_rows pf d10 (Suc (Suc i)) (map (dict_row FIELD_NAMES) rows) od1 = Inr od'" ..
  with r show ?case by simp
qed

lemma example_report_rows:
  "filter (\<lambda>row. row \<noteq> []) (example_csv_reader example_report) =
     [''Y (ang)'', ''Ec (eV)'', ''Ev (eV)'', ''E (V/cm)'', ''Ef (eV)'', ''n (cm-3)'',
       ''p (cm-3)'', ''Nd - Na (cm-3)'', ''el eval 1 (eV)''] #
     [[''0.0'', ''1.0'', ''1.0'', ''0.0'', ''0.0'', ''2.0'', ''2.0'', ''0.0''],
      [''10.0'', ''1.0'', ''1.0'', ''0.0'', ''0.0'', ''2.0'', ''2.0'', ''0.0'', ''0.5''],
      [''25.0'', ''1.0'', ''1.0'', ''0.0'', ''0.0'', ''2.0'', ''2.0'', ''0.0'', ''2.0'']]"
  by (simp add: example_csv_reader_def example_report_def tsv_def)


lemma OutputData_init_rows:
  "OutputData_init reader pf tenth (Some report) =
   parse_rows pf tenth (Suc 0)
     (map (dict_row FIELD_NAMES) (drop 1 (filter (\<lambda>row. row \<noteq> []) (reader report))))
     \<lparr> z = [], energy_conduction = [], energy_valence = [], electric_field = [],
       energy_fermi = [], density_electron = [], density_hole = [],
       energy_ground_state = None, position_ground_state = None \<rparr>"
  by (cases "filter (\<lambda>row. row \<noteq> []) (reader report)") (simp_all add: OutputData_init_def DictReader_def)

lemma first_seven_cells:
  assumes "7 \<le> length r" "list_all (\<lambda>cell. pf cell \<noteq> None) (take 7 r)"
  shows "6 < length r \<and> (\<forall>k<7. pf (r ! k) \<noteq> None)"
proof -
  have "pf (r ! k) \<noteq> None" if "k < 7" for k
  proof -
    from that assms(1) have "take 7 r ! k \<in> set (take 7 r)" by (intro nth_mem) simp
    with assms(2) have "pf (take 7 r ! k) \<noteq> None" by (simp add: list_all_iff)
    with that show ?thesis by simp
  qed
  with assms(1) show ?thesis by simp
qed

lemma example_report_parsed:
  "OutputData_init example_csv_reader example_py_float example_div10 (Some example_report) =
   Inr \<lparr> z = [0, 1, 5/2], energy_conduction = [1, 1, 1], energy_valence = [1, 1, 1],
         electric_field = [0, 0, 0], energy_fermi = [0, 0, 0], density_electron = [2, 2, 2],
         density_hole = [2, 2, 2], energy_ground_state = Some (1/2),
         position_ground_state = Some 1 \<rparr>"
  by (simp add: OutputData_init_rows example_report_rows parse_row_def set_ground_state_def
        bind_error_def float_cell_keys getitem_ninth float_of_def example_py_float_def
        example_div10_def)

text \<open>
  Claim C8. For a file whose non-empty rows are a header row followed by n data rows,
  well-formed in that every data row has seven leading cells that are numbers and the
  first ninth cell, if there is one, is a number: the parser returns; row 0 is skipped,
  whatever it holds; each of the seven series has exactly n entries; and every entry of
  the position series is the number in the first cell of its row divided by 10.
\<close>

theorem OutputData_series:
  assumes "filter (\<lambda>row. row \<noteq> []) (reader report) = header # rows"
    and "list_all (\<lambda>r. 7 \<le> length r \<and> list_all (\<lambda>cell. pf cell \<noteq> None) (take 7 r)) rows"
    and "case find (\<lambda>r. 8 < length r) rows of None \<Rightarrow> True | Some r \<Rightarrow> pf (r ! 8) \<noteq> None"
  shows "\<exists>od. OutputData_init reader pf tenth (Some report) = Inr od
           \<and> map Some (z od) = map (\<lambda>r. map_option tenth (pf (r ! 0))) rows
           \<and> length (z od) = length rows
           \<and> length (energy_conduction od) = length rows
           \<and> length (energy_valence od) = length rows
           \<and> length (electric_field od) = length rows
           \<and> length (energy_fermi od) = length rows
           \<and> length (density_electron od) = length rows
           \<and> length (density_hole od) = length rows"
proof -
  let ?od0 = "\<lparr> z = [], energy_conduction = [], energy_valence = [], electric_field = [],
       energy_fermi = [], density_electron = [], density_hole = [],
       energy_ground_state = None, position_ground_state = None \<rparr> :: 'a OutputData"
  have "6 < length r \<and> (\<forall>k<7. pf (r ! k) \<noteq> None)" if "r \<in> set rows" for r
  proof -
    from bspec [OF list_all_iff [THEN iffD1, OF assms(2)] that]
    have a: "7 \<le> length r" and b: "list_all (\<lambda>cell. pf cell \<noteq> None) (take 7 r)"
      by blast+
    from first_seven_cells [OF a b] show ?thesis .
  qed
  then have wf: "list_all (\<lambda>r. 6 < length r \<and> (\<forall>k<7. pf (r ! k) \<noteq> None)) rows"
    by (simp add: list_all_iff)
  from assms(3) have "energy_ground_state ?od0 = None \<longrightarrow>
      (case find (\<lambda>r. 8 < length r) rows of None \<Rightarrow> True | Some r \<Rightarrow> pf (r ! 8) \<noteq> None)"
    by simp
  from parse_rows_succeeds [OF wf this, of tenth 0] obtain od where
    od: "parse_rows pf tenth (Suc 0) (map (dict_row FIELD_NAMES) rows) ?od0 = Inr od" ..
  with assms(1) have init: "OutputData_init reader pf tenth (Some report) = Inr od"
    by (simp add: OutputData_init_rows)
  from parse_rows_series [OF od]
  have s: "map Some (z od) = map (\<lambda>r. map_option tenth (pf (r ! 0))) rows"
    "length (energy_conduction od) = length rows" "length (energy_valence od) = length rows"
    "length (electric_field od) = length rows" "length (energy_fermi od) = length rows"
    "length (density_electron od) = length rows" "length (density_hole od) = length rows"
    by simp_all
  from s(1) have "length (map Some (z od)) = length rows" by simp
  then have "length (z od) = length rows" by simp
  with init s show ?thesis by blast
qed

theorem OutputData_series_witness:
  "\<exists>od. OutputData_init example_csv_reader example_py_float example_div10 (Some example_report)
          = Inr od
     \<and> z od = [0, 1, 5/2]
     \<and> length (energy_conduction od) = 3 \<and> length (energy_valence od) = 3
     \<and> length (electric_field od) = 3 \<and> length (energy_fermi od) = 3
     \<and> length (density_electron od) = 3 \<and> length (density_hole od) = 3"
proof -
  let ?rows = "[[''0.0'', ''1.0'', ''1.0'', ''0.0'', ''0.0'', ''2.0'', ''2.0'', ''0.0''],
      [''10.0'', ''1.0'', ''1.0'', ''0.0'', ''0.0'', ''2.0'', ''2.0'', ''0.0'', ''0.5''],
      [''25.0'', ''1.0'', ''1.0'', ''0.0'', ''0.0'', ''2.0'', ''2.0'', ''0.0'', ''2.0'']]"
  have wf: "list_all (\<lambda>r. 7 \<le> length r
              \<and> list_all (\<lambda>cell. example_py_float cell \<noteq> None) (take 7 r)) ?rows"
    by (simp add: example_py_float_def)
  have ninth: "case find (\<lambda>r. 8 < length r) ?rows of None \<Rightarrow> True
                | Some r \<Rightarrow> example_py_float (r ! 8) \<noteq> None"
    by (simp add: example_py_float_def)
  from OutputData_series [where reader = example_csv_reader and report = example_report
      and pf = example_py_float and tenth = example_div10, OF example_report_rows wf ninth]
  obtain od where
    od: "OutputData_init example_csv_reader example_py_float example_div10 (Some example_report)
          = Inr od"
    and zs: "map Some (z od) = map (\<lambda>r. map_option example_div10 (example_py_float (r ! 0))) ?rows"
    and ls: "length (energy_conduction od) = length ?rows" "length (energy_valence od) = length ?rows"
      "length (electric_field od) = length ?rows" "length (energy_fermi od) = length ?rows"
      "length (density_electron od) = length ?rows" "length (density_hole od) = length ?rows"
    by blast
  from zs have "map Some (z od) = map Some [0, 1, 5/2]"
    by (simp add: example_py_float_def example_div10_def)
  then have "z od = [0, 1, 5/2]" by (simp only: map_injective [OF _ inj_Some])
  with od ls show ?thesis by simp
qed

text \<open>
  Claim C10. For every file that the parser accepts, the energy is \<^verbatim>\<open>None\<close> exactly when
  the position is; and when the energy is set, it is the number in the ninth cell of the
  first data row that has a ninth cell, and the position is the number in the first cell
  of that same row divided by 10.
\<close>

theorem ground_state_coherent:
  assumes "OutputData_init reader pf tenth (Some report) = Inr od"
  shows "(energy_ground_state od = None \<longleftrightarrow> position_ground_state od = None)
       \<and> (\<forall>e. energy_ground_state od = Some e \<longrightarrow>
            (\<exists>r y. find (\<lambda>r. 8 < length r) (drop 1 (filter (\<lambda>row. row \<noteq> []) (reader report))) = Some r
               \<and> pf (r ! 8) = Some e \<and> pf (r ! 0) = Some y
               \<and> position_ground_state od = Some (tenth y)))"
proof -
  let ?rows = "drop 1 (filter (\<lambda>row. row \<noteq> []) (reader report))"
  let ?od0 = "\<lparr> z = [], energy_conduction = [], energy_valence = [], electric_field = [],
       energy_fermi = [], density_electron = [], density_hole = [],
       energy_ground_state = None, position_ground_state = None \<rparr> :: 'a OutputData"
  from assms have p: "parse_rows pf tenth (Suc 0) (map (dict_row FIELD_NAMES) ?rows) ?od0 = Inr od"
    by (simp add: OutputData_init_rows)
  show ?thesis
  proof (cases "find (\<lambda>r. 8 < length r) ?rows")
    case None
    from parse_rows_ground_none [OF p _ None] show ?thesis by simp
  next
    case (Some r)
    from parse_rows_ground_first [OF p _ Some] obtain e y where
      "pf (r ! 8) = Some e" "pf (r ! 0) = Some y"
      "energy_ground_state od = Some e" "position_ground_state od = Some (tenth y)"
      by auto
    with Some show ?thesis by simp
  qed
qed

theorem ground_state_coherent_witness:
  "\<exists>od r y. OutputData_init example_csv_reader example_py_float example_div10 (Some example_report)
          = Inr od
     \<and> energy_ground_state od = Some (1/2)
     \<and> find (\<lambda>r. 8 < length r)
          (drop 1 (filter (\<lambda>row. row \<noteq> []) (example_csv_reader example_report))) = Some r
     \<and> example_py_float (r ! 8) = Some (1/2) \<and> example_py_float (r ! 0) = Some y
     \<and> position_ground_state od = Some (example_div10 y)"
  using ground_state_coherent [OF example_report_parsed] example_report_parsed
  by simp






section \<open>The sweep\<close>


















lemma save_variables_flag:
  "save_variables d w = (r, w') \<Longrightarrow> dir_output_exists w' = dir_output_exists w"
proof (induction d arbitrary: w)
  case Nil
  then show ?case by simp
next
  case (Cons item d)
  obtain name xs where item: "item = (name, xs)" by (cases item)
  from Cons.prems Cons.IH show ?case
    by (auto simp: item bind_action_def np_save_def split: if_splits)
qed








end
